theory Spec2Isabelle
  imports Complex_Main "HOL-Library.Multiset"
begin

section \<open>The example script \<open>ogbg-mol-hiv_disjoint.py\<close>\<close>

text \<open>
  The script is glue code: constants, a sequence of library calls, a training loop and an
  evaluation loop. The embedding keeps the script's own control flow and data flow and takes
  every library operation it calls as a field of a record \<open>lib\<close>. Floating-point values
  are an arbitrary type \<open>'v\<close> whose arithmetic (\<open>tf_add\<close>, \<open>tf_div\<close>) belongs to the
  library too, so no law of real arithmetic is assumed of them.
\<close>

subsection \<open>Exceptions, printed lines, events\<close>

datatype exn = Raised string

text \<open>The four \<open>print\<close> statements of the script (lines 89, 97, 104, 119). The number
  formatting of \<open>str.format\<close> is not modelled: a line carries the values it formats.\<close>

datatype 'v line =
    Fitting_model
  | Loss 'v
  | Testing_model
  | Done 'v 'v

text \<open>The call sites of the script, in the order of the source.\<close>

datatype callsite =
    C_GraphPropPredDataset string
  | C_OGB
  | C_n_node_features
  | C_n_edge_features
  | C_n_labels
  | C_get_idx_split
  | C_subscript string
  | C_getitem
  | C_DisjointLoader nat nat
  | C_Input
  | C_ECCConv nat string
  | C_GlobalSumPool
  | C_Dense nat string
  | C_Model
  | C_Adam rat
  | C_BinaryCrossentropy
  | C_model bool
  | C_loss_fn
  | C_gradient
  | C_apply_gradients
  | C_Evaluator string
  | C_vstack
  | C_eval

text \<open>
  What a run does, step by step: a call (with the exception it raised, if any), a printed
  line, or an operation of the script itself on the file system (\<open>open\<close>, \<open>write\<close>,
  \<open>os.remove\<close>).
\<close>

datatype 'v event =
    Call callsite "exn option"
  | Print "'v line"
  | File_op string

text \<open>A run is the list of its events and its outcome: the exception that ended it, or
  its value.\<close>

type_synonym ('v, 'a) run = "'v event list \<times> (exn + 'a)"

definition ret :: "'a \<Rightarrow> ('v, 'a) run" where
  "ret v = ([], Inr v)"

definition bind :: "('v, 'a) run \<Rightarrow> ('a \<Rightarrow> ('v, 'b) run) \<Rightarrow> ('v, 'b) run" where
  "bind m f =
     (case m of
        (t, Inl ex) \<Rightarrow> (t, Inl ex)
      | (t, Inr v) \<Rightarrow> (case f v of (t', r) \<Rightarrow> (t @ t', r)))"

definition raised :: "exn + 'a \<Rightarrow> exn option" where
  "raised r = (case r of Inl ex \<Rightarrow> Some ex | Inr _ \<Rightarrow> None)"

definition call :: "callsite \<Rightarrow> exn + 'a \<Rightarrow> ('v, 'a) run" where
  "call c r = ([Call c (raised r)], r)"

definition print :: "'v line \<Rightarrow> ('v, unit) run" where
  "print l = ([Print l], Inr ())"

text \<open>\<open>d[k]\<close> on a dict: \<open>KeyError\<close> when the key is missing.\<close>

definition subscript :: "(string \<rightharpoonup> 'a) \<Rightarrow> string \<Rightarrow> ('v, 'a) run" where
  "subscript d k =
     call (C_subscript k) (case d k of None \<Rightarrow> Inl (Raised ''KeyError'') | Some v \<Rightarrow> Inr v)"

subsection \<open>Data model\<close>

text \<open>A labeled graph: node feature matrix (a row per node), sparse adjacency (the
  coordinates and values of its entries), edge feature matrix, graph-level label.\<close>

record 'v graph =
  node_features :: "'v list list"
  adjacency :: "((nat \<times> nat) \<times> int) list"
  edge_features :: "'v list list"
  label :: "'v list"

text \<open>The four inputs of the model, in the order of \<open>X_in\<close>, \<open>A_in\<close>, \<open>E_in\<close>,
  \<open>I_in\<close> (lines 53-56, 64): node features, adjacency, edge features, and for each node
  the index of its graph.\<close>

record 'v inputs =
  inp_x :: "'v list list"
  inp_a :: "((nat \<times> nat) \<times> int) list"
  inp_e :: "'v list list"
  inp_i :: "nat list"

text \<open>A batch is \<open>(inputs, target)\<close>; a loader is what the script reads of it: the batches
  its iteration yields and the attribute \<open>steps_per_epoch\<close>.\<close>

type_synonym 'v batch = "'v inputs \<times> 'v list list"

record 'v loader =
  batches :: "'v batch list"
  steps_per_epoch :: nat

subsection \<open>The library operations the script calls\<close>

text \<open>
  \<open>'k\<close> is a symbolic Keras tensor, \<open>'w\<close> the Keras model with its variables,
  \<open>'opt\<close> the optimizer, \<open>'g\<close> the gradients, \<open>'d\<close> the OGB dataset object,
  \<open>'ev\<close> the OGB evaluator. A call that mutates an object returns the object after the
  call. \<open>Input\<close> takes the shape, the \<open>sparse\<close> flag and the dtype; \<open>ECCConv\<close> and
  \<open>Dense\<close> take the number of channels, the activation and the tensors the new layer is
  applied to.
\<close>

record ('v, 'k, 'w, 'opt, 'g, 'd, 'ev) lib =
  GraphPropPredDataset :: "string \<Rightarrow> exn + 'd"
  OGB :: "'d \<Rightarrow> exn + 'v graph list"
  n_node_features :: "'v graph list \<Rightarrow> exn + nat"
  n_edge_features :: "'v graph list \<Rightarrow> exn + nat"
  n_labels :: "'v graph list \<Rightarrow> exn + nat"
  get_idx_split :: "'d \<Rightarrow> exn + (string \<rightharpoonup> nat list)"
  getitem :: "'v graph list \<Rightarrow> nat list \<Rightarrow> exn + 'v graph list"
  DisjointLoader :: "'v graph list \<Rightarrow> nat \<Rightarrow> nat \<Rightarrow> exn + 'v loader"
  Input :: "nat option list \<Rightarrow> bool \<Rightarrow> string option \<Rightarrow> exn + 'k"
  ECCConv :: "nat \<Rightarrow> string \<Rightarrow> 'k list \<Rightarrow> exn + 'k"
  GlobalSumPool :: "'k list \<Rightarrow> exn + 'k"
  Dense :: "nat \<Rightarrow> string \<Rightarrow> 'k \<Rightarrow> exn + 'k"
  Model :: "'k list \<Rightarrow> 'k \<Rightarrow> exn + 'w"
  Adam :: "rat \<Rightarrow> exn + 'opt"
  BinaryCrossentropy :: "exn + unit"
  model_call :: "'w \<Rightarrow> 'v inputs \<Rightarrow> bool \<Rightarrow> exn + ('v list list \<times> 'w)"
  loss_fn :: "'v list list \<Rightarrow> 'v list list \<Rightarrow> exn + 'v"
  losses :: "'w \<Rightarrow> 'v list"
  gradient :: "'w \<Rightarrow> 'v inputs \<Rightarrow> 'v list list \<Rightarrow> exn + 'g"
  apply_gradients :: "'opt \<Rightarrow> 'g \<Rightarrow> 'w \<Rightarrow> exn + ('opt \<times> 'w)"
  trainable_variables :: "'w \<Rightarrow> 'v list list"
  Evaluator :: "string \<Rightarrow> exn + 'ev"
  evaluator_eval :: "'ev \<Rightarrow> 'v list list \<Rightarrow> 'v list list \<Rightarrow> exn + (string \<rightharpoonup> 'v)"
  np_vstack :: "'v list list list \<Rightarrow> exn + 'v list list"
  tf_const :: "int \<Rightarrow> 'v"
  tf_add :: "'v \<Rightarrow> 'v \<Rightarrow> 'v"
  tf_div :: "'v \<Rightarrow> 'v \<Rightarrow> 'v"

subsection \<open>PARAMETERS (lines 24-26) and the dataset name (line 31)\<close>

definition learning_rate :: rat where
  "learning_rate = 1 / 1000"

definition epochs :: nat where
  "epochs = 10"

definition batch_size :: nat where
  "batch_size = 32"

definition dataset_name :: string where
  "dataset_name = ''ogbg-molhiv''"

subsection \<open>LOAD DATA (lines 31-48)\<close>

definition load_data ::
  "('v, 'k, 'w, 'opt, 'g, 'd, 'ev) lib \<Rightarrow> ('v, nat \<times> nat \<times> nat \<times> 'v loader \<times> 'v loader) run" where
  "load_data lib =
     bind (call (C_GraphPropPredDataset dataset_name) (GraphPropPredDataset lib dataset_name))
       (\<lambda>ogb_dataset.
     bind (call C_OGB (OGB lib ogb_dataset)) (\<lambda>dataset.
     bind (call C_n_node_features (n_node_features lib dataset)) (\<lambda>F.
     bind (call C_n_edge_features (n_edge_features lib dataset)) (\<lambda>S.
     bind (call C_n_labels (n_labels lib dataset)) (\<lambda>n_out.
     bind (call C_get_idx_split (get_idx_split lib ogb_dataset)) (\<lambda>idx.
     bind (subscript idx ''train'') (\<lambda>idx_tr.
     bind (subscript idx ''valid'') (\<lambda>idx_va.
     bind (subscript idx ''test'') (\<lambda>idx_te.
     bind (call C_getitem (getitem lib dataset idx_tr)) (\<lambda>dataset_tr.
     bind (call C_getitem (getitem lib dataset idx_va)) (\<lambda>dataset_va.
     bind (call C_getitem (getitem lib dataset idx_te)) (\<lambda>dataset_te.
     bind (call (C_DisjointLoader batch_size epochs)
             (DisjointLoader lib dataset_tr batch_size epochs)) (\<lambda>loader_tr.
     bind (call (C_DisjointLoader batch_size 1)
             (DisjointLoader lib dataset_te batch_size 1)) (\<lambda>loader_te.
     ret (F, S, n_out, loader_tr, loader_te)))))))))))))))"

subsection \<open>BUILD MODEL (lines 53-66)\<close>

definition build_model ::
  "('v, 'k, 'w, 'opt, 'g, 'd, 'ev) lib \<Rightarrow> nat \<Rightarrow> nat \<Rightarrow> nat \<Rightarrow> ('v, 'w \<times> 'opt) run" where
  "build_model lib F S n_out =
     bind (call C_Input (Input lib [Some F] False None)) (\<lambda>X_in.
     bind (call C_Input (Input lib [None] True None)) (\<lambda>A_in.
     bind (call C_Input (Input lib [Some S] False None)) (\<lambda>E_in.
     bind (call C_Input (Input lib [] False (Some ''int64''))) (\<lambda>I_in.
     bind (call (C_ECCConv 32 ''relu'') (ECCConv lib 32 ''relu'' [X_in, A_in, E_in])) (\<lambda>X_1.
     bind (call (C_ECCConv 32 ''relu'') (ECCConv lib 32 ''relu'' [X_1, A_in, E_in])) (\<lambda>X_2.
     bind (call C_GlobalSumPool (GlobalSumPool lib [X_2, I_in])) (\<lambda>X_3.
     bind (call (C_Dense n_out ''sigmoid'') (Dense lib n_out ''sigmoid'' X_3)) (\<lambda>output.
     bind (call C_Model (Model lib [X_in, A_in, E_in, I_in] output)) (\<lambda>model.
     bind (call (C_Adam learning_rate) (Adam lib learning_rate)) (\<lambda>opt.
     bind (call C_BinaryCrossentropy (BinaryCrossentropy lib)) (\<lambda>_.
     ret (model, opt))))))))))))"

subsection \<open>FIT MODEL (lines 72-99)\<close>

text \<open>Python's \<open>sum(xs)\<close>: the additions start from the integer 0, left to right.\<close>

definition py_sum :: "('v, 'k, 'w, 'opt, 'g, 'd, 'ev) lib \<Rightarrow> 'v list \<Rightarrow> 'v" where
  "py_sum lib xs = foldl (tf_add lib) (tf_const lib 0) xs"

definition train_step ::
  "('v, 'k, 'w, 'opt, 'g, 'd, 'ev) lib \<Rightarrow> 'w \<Rightarrow> 'opt \<Rightarrow> 'v inputs \<Rightarrow> 'v list list
     \<Rightarrow> ('v, 'v \<times> 'w \<times> 'opt) run" where
  "train_step lib model opt inputs target =
     bind (call (C_model True) (model_call lib model inputs True)) (\<lambda>(predictions, model1).
     bind (call C_loss_fn (loss_fn lib target predictions)) (\<lambda>loss0.
     let loss = tf_add lib loss0 (py_sum lib (losses lib model1)) in
     bind (call C_gradient (gradient lib model1 inputs target)) (\<lambda>gradients.
     bind (call C_apply_gradients (apply_gradients lib opt gradients model1)) (\<lambda>(opt', model').
     ret (loss, model', opt')))))"

text \<open>The loop of lines 92-99 over the batches the loader yields. The loop state is
  \<open>(current_batch, model_loss, model, opt)\<close>.\<close>

fun train_loop ::
  "('v, 'k, 'w, 'opt, 'g, 'd, 'ev) lib \<Rightarrow> nat \<Rightarrow> 'v batch list \<Rightarrow> nat \<times> 'v \<times> 'w \<times> 'opt
     \<Rightarrow> ('v, nat \<times> 'v \<times> 'w \<times> 'opt) run" where
  "train_loop lib spe [] st = ret st"
| "train_loop lib spe (batch # rest) (current_batch, model_loss, model, opt) =
     bind (train_step lib model opt (fst batch) (snd batch)) (\<lambda>(outs, model', opt').
       let model_loss' = tf_add lib model_loss outs;
           current_batch' = current_batch + 1
       in if current_batch' = spe
          then bind (print (Loss (tf_div lib model_loss' (tf_const lib (int spe))))) (\<lambda>_.
                 train_loop lib spe rest (0, tf_const lib 0, model', opt'))
          else train_loop lib spe rest (current_batch', model_loss', model', opt'))"

definition fit ::
  "('v, 'k, 'w, 'opt, 'g, 'd, 'ev) lib \<Rightarrow> 'v loader \<Rightarrow> 'w \<Rightarrow> 'opt
     \<Rightarrow> ('v, nat \<times> 'v \<times> 'w \<times> 'opt) run" where
  "fit lib loader_tr model opt =
     bind (print Fitting_model) (\<lambda>_.
     train_loop lib (steps_per_epoch loader_tr) (batches loader_tr)
       (0, tf_const lib 0, model, opt))"

subsection \<open>EVALUATE MODEL (lines 104-120)\<close>

text \<open>The loop of lines 108-112. The loop state is \<open>(y_true, y_pred, model)\<close>;
  \<open>p.numpy()\<close> keeps the rows of \<open>p\<close>.\<close>

fun eval_loop ::
  "('v, 'k, 'w, 'opt, 'g, 'd, 'ev) lib \<Rightarrow> 'v batch list
     \<Rightarrow> 'v list list list \<times> 'v list list list \<times> 'w
     \<Rightarrow> ('v, 'v list list list \<times> 'v list list list \<times> 'w) run" where
  "eval_loop lib [] st = ret st"
| "eval_loop lib (batch # rest) (y_true, y_pred, model) =
     (case batch of (inputs, target) \<Rightarrow>
        bind (call (C_model False) (model_call lib model inputs False)) (\<lambda>(p, model').
          eval_loop lib rest (y_true @ [target], y_pred @ [p], model')))"

definition evaluate ::
  "('v, 'k, 'w, 'opt, 'g, 'd, 'ev) lib \<Rightarrow> 'v loader \<Rightarrow> 'w \<Rightarrow> ('v, 'v \<times> 'v \<times> 'w) run" where
  "evaluate lib loader_te model =
     bind (print Testing_model) (\<lambda>_.
     bind (call (C_Evaluator dataset_name) (Evaluator lib dataset_name)) (\<lambda>evaluator.
     bind (eval_loop lib (batches loader_te) ([], [], model)) (\<lambda>(y_true_blocks, y_pred_blocks, model').
     bind (call C_vstack (np_vstack lib y_true_blocks)) (\<lambda>y_true.
     bind (call C_vstack (np_vstack lib y_pred_blocks)) (\<lambda>y_pred.
     bind (call C_loss_fn (loss_fn lib y_true y_pred)) (\<lambda>model_loss.
     bind (call C_eval (evaluator_eval lib evaluator y_true y_pred)) (\<lambda>ogb_score.
     bind (subscript ogb_score ''rocauc'') (\<lambda>rocauc.
     bind (print (Done model_loss rocauc)) (\<lambda>_.
     ret (model_loss, rocauc, model'))))))))))"

subsection \<open>The whole script\<close>

definition main :: "('v, 'k, 'w, 'opt, 'g, 'd, 'ev) lib \<Rightarrow> ('v, 'v \<times> 'v \<times> 'w) run" where
  "main lib =
     bind (load_data lib) (\<lambda>(F, S, n_out, loader_tr, loader_te).
     bind (build_model lib F S n_out) (\<lambda>(model, opt).
     bind (fit lib loader_tr model opt) (\<lambda>(current_batch, model_loss, model', opt').
     evaluate lib loader_te model')))"

section \<open>Observing a run\<close>

text \<open>The lines a run prints, in order.\<close>

fun printed :: "'v event list \<Rightarrow> 'v line list" where
  "printed [] = []"
| "printed (Print l # t) = l # printed t"
| "printed (_ # t) = printed t"






text \<open>The events of each phase.\<close>

fun load_call :: "callsite \<Rightarrow> bool" where
  "load_call (C_GraphPropPredDataset n) = True"
| "load_call C_OGB = True"
| "load_call C_n_node_features = True"
| "load_call C_n_edge_features = True"
| "load_call C_n_labels = True"
| "load_call C_get_idx_split = True"
| "load_call (C_subscript k) = (k = ''train'' \<or> k = ''valid'' \<or> k = ''test'')"
| "load_call C_getitem = True"
| "load_call (C_DisjointLoader b n) = True"
| "load_call _ = False"

fun build_call :: "callsite \<Rightarrow> bool" where
  "build_call C_Input = True"
| "build_call (C_ECCConv n act) = True"
| "build_call C_GlobalSumPool = True"
| "build_call (C_Dense n act) = True"
| "build_call C_Model = True"
| "build_call (C_Adam lr) = True"
| "build_call C_BinaryCrossentropy = True"
| "build_call _ = False"

fun fit_call :: "callsite \<Rightarrow> bool" where
  "fit_call (C_model training) = training"
| "fit_call C_loss_fn = True"
| "fit_call C_gradient = True"
| "fit_call C_apply_gradients = True"
| "fit_call _ = False"

fun evaluate_call :: "callsite \<Rightarrow> bool" where
  "evaluate_call (C_Evaluator n) = True"
| "evaluate_call (C_model training) = (\<not> training)"
| "evaluate_call C_vstack = True"
| "evaluate_call C_loss_fn = True"
| "evaluate_call C_eval = True"
| "evaluate_call (C_subscript k) = (k = ''rocauc'')"
| "evaluate_call _ = False"

fun in_load :: "'v event \<Rightarrow> bool" where
  "in_load (Call c r) = load_call c"
| "in_load _ = False"

fun in_build :: "'v event \<Rightarrow> bool" where
  "in_build (Call c r) = build_call c"
| "in_build _ = False"

fun in_fit :: "'v event \<Rightarrow> bool" where
  "in_fit (Call c r) = fit_call c"
| "in_fit (Print Fitting_model) = True"
| "in_fit (Print (Loss v)) = True"
| "in_fit _ = False"

fun in_evaluate :: "'v event \<Rightarrow> bool" where
  "in_evaluate (Call c r) = evaluate_call c"
| "in_evaluate (Print Testing_model) = True"
| "in_evaluate (Print (Done l s)) = True"
| "in_evaluate _ = False"

text \<open>An inference forward pass of the evaluation loop (line 110), and the end of a
  completed call of \<open>train_step\<close> (line 85).\<close>

fun eval_forward :: "'v event \<Rightarrow> bool" where
  "eval_forward (Call (C_model training) r) = (\<not> training)"
| "eval_forward _ = False"

fun step_done :: "'v event \<Rightarrow> bool" where
  "step_done (Call C_apply_gradients r) = (r = None)"
| "step_done _ = False"

text \<open>A gradient computed or applied (lines 84, 85), or a forward pass in training mode.\<close>

fun training_event :: "'v event \<Rightarrow> bool" where
  "training_event (Call (C_model training) r) = training"
| "training_event (Call C_gradient r) = True"
| "training_event (Call C_apply_gradients r) = True"
| "training_event _ = False"

fun file_event :: "'v event \<Rightarrow> bool" where
  "file_event (File_op f) = True"
| "file_event _ = False"

text \<open>The shape of the printed output: nothing, or the banner \<open>Fitting model\<close>, loss
  lines, and then nothing, the banner \<open>Testing model\<close>, or that banner and the final line.\<close>

fun is_tail :: "'v line list \<Rightarrow> bool" where
  "is_tail [] = True"
| "is_tail [Testing_model] = True"
| "is_tail [Testing_model, Done l s] = True"
| "is_tail _ = False"

fun after_banner :: "'v line list \<Rightarrow> bool" where
  "after_banner (Loss v # ls) = after_banner ls"
| "after_banner ls = is_tail ls"

fun output_shape :: "'v line list \<Rightarrow> bool" where
  "output_shape [] = True"
| "output_shape (Fitting_model # ls) = after_banner ls"
| "output_shape _ = False"

text \<open>A line that is a per-epoch loss or the final line.\<close>

fun loss_or_final :: "'v line \<Rightarrow> bool" where
  "loss_or_final (Loss v) = True"
| "loss_or_final (Done l s) = True"
| "loss_or_final _ = False"

text \<open>The configuration a call receives: the dataset name, the learning rate, the batch
  size and the number of epochs (the test loader runs one epoch).\<close>

fun configured :: "'v event \<Rightarrow> bool" where
  "configured (Call (C_GraphPropPredDataset n) r) = (n = ''ogbg-molhiv'')"
| "configured (Call (C_Evaluator n) r) = (n = ''ogbg-molhiv'')"
| "configured (Call (C_Adam lr) r) = (lr = 1 / 1000)"
| "configured (Call (C_DisjointLoader b n) r) = (b = 32 \<and> (n = 10 \<or> n = 1))"
| "configured _ = True"

text \<open>What the evaluation phase prints after its banner: the final line, with the values the
  run returns, when the run ends normally, and nothing otherwise.\<close>

definition ends_with_final :: "('v, 'v \<times> 'v \<times> 'w) run \<Rightarrow> bool" where
  "ends_with_final m =
     (case snd m of
        Inl ex \<Rightarrow> printed (fst m) = []
      | Inr (l, s, model) \<Rightarrow> printed (fst m) = [Done l s])"

text \<open>What the evaluation phase prints: its banner, and then the final line when the run ends
  normally.\<close>

definition evaluate_output :: "('v, 'v \<times> 'v \<times> 'w) run \<Rightarrow> bool" where
  "evaluate_output m =
     (case snd m of
        Inl ex \<Rightarrow> printed (fst m) = [Testing_model]
      | Inr (l, s, model) \<Rightarrow> printed (fst m) = [Testing_model, Done l s])"


text \<open>A run with one more event in front.\<close>

definition prepend :: "'v event \<Rightarrow> ('v, 'a) run \<Rightarrow> ('v, 'a) run" where
  "prepend ev m = (ev # fst m, snd m)"

text \<open>The library whose split has the validation indices replaced by \<open>va\<close>.\<close>

definition with_validation ::
  "nat list \<Rightarrow> ('v, 'k, 'w, 'opt, 'g, 'd, 'ev) lib \<Rightarrow> ('v, 'k, 'w, 'opt, 'g, 'd, 'ev) lib" where
  "with_validation va lib =
     lib\<lparr>get_idx_split := (\<lambda>d. map_sum id (\<lambda>idx. idx(''valid'' \<mapsto> va)) (get_idx_split lib d))\<rparr>"

section \<open>The disjoint loader\<close>

text \<open>
  The class \<open>DisjointLoader\<close> of \<open>spektral.data\<close> belongs to the repository, but its
  source is not part of the script. The definitions of this section follow the spec, which
  describes a batch as graphs "disjointly unioned into a single block-diagonal adjacency
  with an index vector assigning nodes to graphs".
\<close>

definition n_nodes :: "'v graph \<Rightarrow> nat" where
  "n_nodes g = length (node_features g)"

text \<open>Modelled from the spec: the block-diagonal adjacency of \<open>DisjointLoader\<close> (missing
  from the sources). The entries of each graph keep their values and are moved by the
  number of nodes of the graphs before it.\<close>

fun block_diagonal :: "nat \<Rightarrow> 'v graph list \<Rightarrow> ((nat \<times> nat) \<times> int) list" where
  "block_diagonal off [] = []"
| "block_diagonal off (g # gs) =
     map (\<lambda>((i, j), v). ((off + i, off + j), v)) (adjacency g) @
     block_diagonal (off + n_nodes g) gs"

text \<open>Modelled from the spec: the index vector of \<open>DisjointLoader\<close> (missing from the
  sources). Every node of the \<open>k\<close>-th graph of the batch gets the index \<open>k\<close>.\<close>

fun index_vector :: "nat \<Rightarrow> 'v graph list \<Rightarrow> nat list" where
  "index_vector k [] = []"
| "index_vector k (g # gs) = replicate (n_nodes g) k @ index_vector (Suc k) gs"

text \<open>Modelled from the spec: the disjoint union that \<open>DisjointLoader\<close> (missing from the
  sources) makes of the graphs of a batch: the inputs \<open>(X, A, E, I)\<close> and, as target, the
  labels of the graphs.\<close>

definition collate :: "'v graph list \<Rightarrow> 'v batch" where
  "collate gs =
     (\<lparr>inp_x = concat (map node_features gs),
       inp_a = block_diagonal 0 gs,
       inp_e = concat (map edge_features gs),
       inp_i = index_vector 0 gs\<rparr>,
      map label gs)"

text \<open>Modelled from the spec: how \<open>DisjointLoader\<close> (missing from the sources) cuts an epoch
  into batches: consecutive groups of at most \<open>n\<close> graphs.\<close>

fun chunks :: "nat \<Rightarrow> 'a list \<Rightarrow> 'a list list" where
  "chunks n [] = []"
| "chunks n (x # xs) =
     (if n = 0 then [] else take n (x # xs) # chunks n (drop n (x # xs)))"

text \<open>Modelled from the spec: the constructor \<open>DisjointLoader(dataset, batch_size, epochs)\<close>
  (missing from the sources), as the batches its iteration yields and its attribute
  \<open>steps_per_epoch\<close>, the number of batches of an epoch. The order in which epoch \<open>k\<close>
  visits the graphs is not fixed by the spec and is the parameter \<open>order\<close>.\<close>

definition disjoint_loader ::
  "(nat \<Rightarrow> 'v graph list \<Rightarrow> 'v graph list) \<Rightarrow> 'v graph list \<Rightarrow> nat \<Rightarrow> nat \<Rightarrow> 'v loader" where
  "disjoint_loader order dataset bsz n_epochs =
     \<lparr>batches = concat (map (\<lambda>k. map collate (chunks bsz (order k dataset))) [0..<n_epochs]),
      steps_per_epoch = length (chunks bsz dataset)\<rparr>"

text \<open>Node \<open>p\<close> of graph \<open>k\<close> of a batch: its position in the batch.\<close>

definition node_offset :: "'v graph list \<Rightarrow> nat \<Rightarrow> nat" where
  "node_offset gs k = sum_list (map n_nodes (take k gs))"

text \<open>A graph whose adjacency entries lie within its nodes.\<close>

definition graph_ok :: "'v graph \<Rightarrow> bool" where
  "graph_ok g = list_all (\<lambda>((i, j), v). i < n_nodes g \<and> j < n_nodes g) (adjacency g)"

section \<open>A small library for concrete runs\<close>

text \<open>A stacking function for the small library: the rows of the blocks in order, and
  \<open>ValueError\<close> on an empty list and on rows of different widths.\<close>

definition widths :: "'v list list list \<Rightarrow> nat list" where
  "widths blocks = remdups (map length (concat blocks))"

definition vstack :: "'v list list list \<Rightarrow> exn + 'v list list" where
  "vstack blocks =
     (if blocks = [] then Inl (Raised ''ValueError'')
      else if 1 < length (widths blocks) then Inl (Raised ''ValueError'')
      else Inr (concat blocks))"

definition demo_graphs :: "int graph list" where
  "demo_graphs =
     [\<lparr>node_features = [[1], [2]], adjacency = [((0, 1), 1), ((1, 0), 1)],
       edge_features = [[5], [5]], label = [0]\<rparr>,
      \<lparr>node_features = [[3]], adjacency = [], edge_features = [], label = [1]\<rparr>,
      \<lparr>node_features = [[4], [6], [8]], adjacency = [((0, 2), 1), ((2, 0), 1)],
       edge_features = [[7], [7]], label = [1]\<rparr>,
      \<lparr>node_features = [[9], [9]], adjacency = [((0, 1), 1), ((1, 0), 1)],
       edge_features = [[2], [2]], label = [0]\<rparr>]"

definition demo_split :: "string \<rightharpoonup> nat list" where
  "demo_split = [''train'' \<mapsto> [0, 1], ''valid'' \<mapsto> [2], ''test'' \<mapsto> [3, 0]]"

definition demo_getitem :: "int graph list \<Rightarrow> nat list \<Rightarrow> exn + int graph list" where
  "demo_getitem ds idx =
     (if list_all (\<lambda>i. i < length ds) idx then Inr (map (\<lambda>i. ds ! i) idx)
      else Inl (Raised ''IndexError''))"

definition demo_model_call ::
  "nat \<Rightarrow> int inputs \<Rightarrow> bool \<Rightarrow> exn + (int list list \<times> nat)" where
  "demo_model_call model inputs training =
     Inr (map (\<lambda>k. [int model + int k])
            [0..<(if inp_i inputs = [] then 0 else Suc (last (inp_i inputs)))], model)"

definition demo_lib :: "(int, unit, nat, nat, unit, unit, unit) lib" where
  "demo_lib =
     \<lparr>GraphPropPredDataset = (\<lambda>n. Inr ()),
      OGB = (\<lambda>d. Inr demo_graphs),
      n_node_features = (\<lambda>ds. Inr 1),
      n_edge_features = (\<lambda>ds. Inr 1),
      n_labels = (\<lambda>ds. Inr 1),
      get_idx_split = (\<lambda>d. Inr demo_split),
      getitem = demo_getitem,
      DisjointLoader = (\<lambda>ds bsz n. Inr (disjoint_loader (\<lambda>k. rev) ds bsz n)),
      Input = (\<lambda>shape sparse dtype. Inr ()),
      ECCConv = (\<lambda>channels act ins. Inr ()),
      GlobalSumPool = (\<lambda>ins. Inr ()),
      Dense = (\<lambda>channels act ins. Inr ()),
      Model = (\<lambda>ins out. Inr 0),
      Adam = (\<lambda>lr. Inr 0),
      BinaryCrossentropy = Inr (),
      model_call = demo_model_call,
      loss_fn = (\<lambda>y_true y_pred. Inr (sum_list (map sum_list y_true) + sum_list (map sum_list y_pred))),
      losses = (\<lambda>model. []),
      gradient = (\<lambda>model inputs target. Inr ()),
      apply_gradients = (\<lambda>opt g model. Inr (Suc opt, Suc model)),
      trainable_variables = (\<lambda>model. [[int model]]),
      Evaluator = (\<lambda>n. Inr ()),
      evaluator_eval = (\<lambda>ev y_true y_pred. Inr [''rocauc'' \<mapsto> 1]),
      np_vstack = vstack,
      tf_const = (\<lambda>i. i),
      tf_add = (\<lambda>a b. a + b),
      tf_div = (\<lambda>a b. a div b)\<rparr>"



definition demo_loader_te :: "int loader" where
  "demo_loader_te = disjoint_loader (\<lambda>k. rev) [demo_graphs ! 3, demo_graphs ! 0] batch_size 1"

definition demo_batch :: "int batch" where
  "demo_batch = collate [demo_graphs ! 0, demo_graphs ! 3]"

section \<open>Properties of runs\<close>

subsection \<open>Runs and printed lines\<close>

lemma printed_append: "printed (s @ t) = printed s @ printed t"
  by (induction s rule: printed.induct) simp_all

lemma bind_ret: "bind (ret v) f = f v"
  by (simp add: bind_def ret_def split: prod.split)

lemma bind_Inr: "bind (t, Inr v) f = (t @ fst (f v), snd (f v))"
  by (simp add: bind_def split: prod.split)

lemma bind_Inl: "bind (t, Inl ex) f = (t, Inl ex)"
  by (simp add: bind_def)

lemma bind_assoc: "bind (bind m f) g = bind m (\<lambda>v. bind (f v) g)"
  by (cases m) (auto simp: bind_def split: prod.split sum.split)

lemma printed_call: "printed (fst (call c r)) = []"
  by (simp add: call_def)

lemma printed_bind_nil:
  "printed (fst m) = [] \<Longrightarrow> (\<And>v. printed (fst (f v)) = []) \<Longrightarrow> printed (fst (bind m f)) = []"
proof (cases m)
  case (Pair t r)
  assume a: "printed (fst m) = []" and b: "\<And>v. printed (fst (f v)) = []"
  show ?thesis
  proof (cases r)
    case (Inl ex)
    with Pair a show ?thesis by (simp add: bind_Inl)
  next
    case (Inr v)
    with Pair a b [of v] show ?thesis by (simp add: bind_Inr printed_append)
  qed
qed

lemma printed_train_step: "printed (fst (train_step lib model opt inputs target)) = []"
  unfolding train_step_def Let_def
  by (intro printed_bind_nil printed_call) (auto simp: ret_def intro!: printed_bind_nil printed_call)


subsection \<open>The training loop\<close>












subsection \<open>Exceptions\<close>

















subsection \<open>The phases of a run\<close>

lemma all_ret: "list_all P (fst (ret v))"
  by (simp add: ret_def)

lemma all_call: "(\<And>r'. P (Call c r')) \<Longrightarrow> list_all P (fst (call c r))"
  by (simp add: call_def)

lemma all_print: "P (Print l) \<Longrightarrow> list_all P (fst (print l))"
  by (simp add: print_def)

lemma all_subscript: "(\<And>r'. P (Call (C_subscript k) r')) \<Longrightarrow> list_all P (fst (subscript d k))"
  by (simp add: subscript_def call_def)

lemma all_bind:
  assumes "list_all P (fst m)" and "\<And>v. list_all P (fst (f v))"
  shows "list_all P (fst (bind m f))"
proof (cases m)
  case (Pair t r)
  with assms show ?thesis
    by (cases r) (simp_all add: bind_Inl bind_Inr)
qed

lemma all_case_prod: "(\<And>a b. list_all P (fst (f a b))) \<Longrightarrow> list_all P (fst (case_prod f p))"
  by (cases p) simp

lemmas all_intros = all_bind all_case_prod all_ret all_call all_print all_subscript

lemma bind_InrE:
  assumes "bind m f = (t, Inr v)"
  obtains t1 a t2 where "m = (t1, Inr a)" and "f a = (t2, Inr v)" and "t = t1 @ t2"
proof (cases m)
  case (Pair t1 r)
  show ?thesis
  proof (cases r)
    case (Inl ex)
    with Pair assms show ?thesis by (simp add: bind_Inl)
  next
    case (Inr a)
    obtain t2 r2 where fa: "f a = (t2, r2)" by (cases "f a")
    from assms Pair Inr fa have "r2 = Inr v" "t = t1 @ t2" by (simp_all add: bind_Inr)
    with Pair Inr fa that [of t1 a t2] show ?thesis by simp
  qed
qed

lemma call_Inr_iff: "call c r = (t, Inr v) \<longleftrightarrow> r = Inr v \<and> t = [Call c None]"
  by (cases r) (auto simp: call_def raised_def)

lemma print_Inr_iff: "print l = (t, Inr v) \<longleftrightarrow> t = [Print l]"
  by (auto simp: print_def)

lemma ret_Inr_iff: "ret a = (t, Inr v) \<longleftrightarrow> t = [] \<and> v = a"
  by (auto simp: ret_def)

lemma load_events: "list_all in_load (fst (load_data lib))"
  unfolding load_data_def by (intro all_intros) simp_all

lemma build_events: "list_all in_build (fst (build_model lib F S n_out))"
  unfolding build_model_def by (intro all_intros) simp_all

lemma train_step_events: "list_all in_fit (fst (train_step lib model opt inputs target))"
  unfolding train_step_def Let_def by (intro all_intros) simp_all

lemma train_loop_events: "list_all in_fit (fst (train_loop lib spe bs st))"
proof (induction bs arbitrary: st)
  case Nil
  show ?case by (simp add: all_ret)
next
  case (Cons b bs)
  obtain current_batch model_loss model opt where st: "st = (current_batch, model_loss, model, opt)"
    by (cases st) auto
  show ?case unfolding st train_loop.simps Let_def
    by (intro all_intros train_step_events) (simp add: all_intros Cons.IH)
qed

lemma fit_events: "list_all in_fit (fst (fit lib loader_tr model opt))"
  unfolding fit_def by (intro all_intros train_loop_events) simp

lemma eval_loop_events: "list_all in_evaluate (fst (eval_loop lib bs st))"
proof (induction bs arbitrary: st)
  case Nil
  show ?case by (simp add: all_ret)
next
  case (Cons b bs)
  obtain y_true y_pred model where st: "st = (y_true, y_pred, model)" by (cases st) auto
  obtain inputs target where b: "b = (inputs, target)" by (cases b)
  show ?case unfolding st b eval_loop.simps prod.case
    by (intro all_intros Cons.IH) simp
qed

lemma evaluate_events: "list_all in_evaluate (fst (evaluate lib loader_te model))"
  unfolding evaluate_def by (intro all_intros eval_loop_events) simp_all

lemma train_step_done:
  assumes "train_step lib model opt inputs target = (t, Inr r)"
  shows "length (filter step_done t) = 1"
  using assms unfolding train_step_def Let_def
  by (auto elim!: bind_InrE simp: call_Inr_iff ret_Inr_iff)

lemma train_loop_done:
  "train_loop lib spe bs st = (t, Inr st') \<Longrightarrow> length (filter step_done t) = length bs"
proof (induction bs arbitrary: st t)
  case Nil
  then show ?case by (simp add: ret_Inr_iff)
next
  case (Cons b bs)
  obtain current_batch model_loss model opt where st: "st = (current_batch, model_loss, model, opt)"
    by (cases st) auto
  from Cons.prems [unfolded st train_loop.simps]
  obtain ts r t' where ts: "train_step lib model opt (fst b) (snd b) = (ts, Inr r)"
    and k: "(case r of (outs, model', opt') \<Rightarrow>
       let model_loss' = tf_add lib model_loss outs;
           current_batch' = current_batch + 1
       in if current_batch' = spe
          then bind (print (Loss (tf_div lib model_loss' (tf_const lib (int spe))))) (\<lambda>_.
                 train_loop lib spe bs (0, tf_const lib 0, model', opt'))
          else train_loop lib spe bs (current_batch', model_loss', model', opt')) = (t', Inr st')"
    and t: "t = ts @ t'"
    by (elim bind_InrE)
  obtain outs model' opt' where r: "r = (outs, model', opt')" by (cases r) auto
  have "length (filter step_done t') = length bs"
  proof (cases "current_batch + 1 = spe")
    case True
    with k r obtain t'' where "train_loop lib spe bs (0, tf_const lib 0, model', opt') = (t'', Inr st')"
      and "t' = Print (Loss (tf_div lib (tf_add lib model_loss outs) (tf_const lib (int spe)))) # t''"
      by (auto simp: Let_def print_Inr_iff elim!: bind_InrE)
    with Cons.IH show ?thesis by fastforce
  next
    case False
    with k r Cons.IH show ?thesis by (simp add: Let_def)
  qed
  with train_step_done [OF ts] t show ?case by simp
qed

lemma fit_done:
  assumes "fit lib loader_tr model opt = (t, Inr st')"
  shows "length (filter step_done t) = length (batches loader_tr)"
  using assms unfolding fit_def
  by (auto elim!: bind_InrE simp: print_Inr_iff dest: train_loop_done)

lemma load_data_loader_tr:
  assumes "load_data lib = (t, Inr (F, S, n_out, loader_tr, loader_te))"
  shows "\<exists>ds. DisjointLoader lib ds batch_size epochs = Inr loader_tr"
  using assms unfolding load_data_def
  by (elim bind_InrE) (auto simp: call_Inr_iff ret_Inr_iff)

lemma main_shape:
  "\<exists>t1 t2 t3 t4.
     fst (main lib) = t1 @ t2 @ t3 @ t4 \<and>
     list_all in_load t1 \<and> list_all in_build t2 \<and> list_all in_fit t3 \<and> list_all in_evaluate t4 \<and>
     (t4 \<noteq> [] \<longrightarrow>
        (\<exists>F S n_out loader_tr loader_te.
           load_data lib = (t1, Inr (F, S, n_out, loader_tr, loader_te)) \<and>
           length (filter step_done t3) = length (batches loader_tr)))"
proof -
  obtain t1 r1 where l: "load_data lib = (t1, r1)" by (cases "load_data lib")
  have e1: "list_all in_load t1" using load_events [of lib] l by simp
  show ?thesis
  proof (cases r1)
    case (Inl ex)
    with l have "fst (main lib) = t1 @ [] @ [] @ []" by (simp add: main_def bind_Inl)
    with e1 show ?thesis by (intro exI [of _ t1] exI [of _ "[]"]) simp
  next
    case (Inr d)
    obtain F S n_out loader_tr loader_te where d: "d = (F, S, n_out, loader_tr, loader_te)"
      by (cases d) auto
    obtain t2 r2 where b: "build_model lib F S n_out = (t2, r2)" by (cases "build_model lib F S n_out")
    have e2: "list_all in_build t2" using build_events [of lib F S n_out] b by simp
    show ?thesis
    proof (cases r2)
      case (Inl ex)
      with l Inr d b have "fst (main lib) = t1 @ t2 @ [] @ []"
        by (simp add: main_def bind_Inl bind_Inr)
      with e1 e2 show ?thesis by (intro exI [of _ t1] exI [of _ t2] exI [of _ "[]"]) simp
    next
      case r2: (Inr mo)
      obtain model opt where mo: "mo = (model, opt)" by (cases mo)
      obtain t3 r3 where f: "fit lib loader_tr model opt = (t3, r3)"
        by (cases "fit lib loader_tr model opt")
      have e3: "list_all in_fit t3" using fit_events [of lib loader_tr model opt] f by simp
      show ?thesis
      proof (cases r3)
        case (Inl ex)
        with l Inr d b r2 mo f have "fst (main lib) = t1 @ t2 @ t3 @ []"
          by (simp add: main_def bind_Inl bind_Inr)
        with e1 e2 e3 show ?thesis
          by (intro exI [of _ t1] exI [of _ t2] exI [of _ t3] exI [of _ "[]"]) simp
      next
        case r3: (Inr st)
        obtain current_batch model_loss model' opt' where st: "st = (current_batch, model_loss, model', opt')"
          by (cases st) auto
        obtain t4 r4 where ev: "evaluate lib loader_te model' = (t4, r4)"
          by (cases "evaluate lib loader_te model'")
        have e4: "list_all in_evaluate t4" using evaluate_events [of lib loader_te model'] ev by simp
        from l Inr d b r2 mo f r3 st ev have "fst (main lib) = t1 @ t2 @ t3 @ t4"
          by (simp add: main_def bind_Inr)
        moreover have "length (filter step_done t3) = length (batches loader_tr)"
          using f r3 by (auto dest: fit_done)
        ultimately show ?thesis using e1 e2 e3 e4 l Inr d
          by (intro exI [of _ t1] exI [of _ t2] exI [of _ t3] exI [of _ t4]) simp
      qed
    qed
  qed
qed

lemma split_after:
  "list_all (\<lambda>x. \<not> Q x) xs \<Longrightarrow> Q ev \<Longrightarrow> xs @ ys = pre @ ev # post \<Longrightarrow>
   \<exists>pre'. pre = xs @ pre' \<and> ys = pre' @ ev # post"
proof (induction xs arbitrary: pre)
  case Nil
  then show ?case by simp
next
  case (Cons x xs)
  then show ?case by (cases pre) auto
qed

lemma in_load_not:
  "in_load ev \<Longrightarrow> \<not> eval_forward ev \<and> \<not> step_done ev"
  by (cases ev rule: in_load.cases; cases ev rule: eval_forward.cases) auto

lemma in_build_not:
  "in_build ev \<Longrightarrow> \<not> eval_forward ev \<and> \<not> step_done ev"
  by (cases ev rule: in_build.cases; cases ev rule: eval_forward.cases) auto

lemma in_fit_not: "in_fit ev \<Longrightarrow> \<not> eval_forward ev"
  by (cases ev rule: eval_forward.cases) auto

lemma in_evaluate_not: "in_evaluate ev \<Longrightarrow> \<not> step_done ev"
  by (cases ev rule: step_done.cases) auto

lemma list_all_mono: "list_all P xs \<Longrightarrow> (\<And>x. P x \<Longrightarrow> Q x) \<Longrightarrow> list_all Q xs"
  by (induction xs) auto

lemma filter_none: "list_all (\<lambda>x. \<not> Q x) xs \<Longrightarrow> filter Q xs = []"
  by (induction xs) auto

text \<open>
  C3. The events of a run come in the order of the phases: those of LOAD DATA, then those of
  BUILD MODEL, then those of FIT MODEL, then those of EVALUATE MODEL (the PARAMETERS are
  constants and leave no event). When the loader yields \<open>epochs * steps_per_epoch\<close>
  batches, every inference forward pass of the evaluation loop comes after exactly
  \<open>epochs * steps_per_epoch\<close> completed calls of \<open>train_step\<close>, and no call of
  \<open>train_step\<close> completes after it.
\<close>

theorem phases_in_order:
  assumes contract:
    "\<forall>ds b n ld. DisjointLoader lib ds b n = Inr ld \<longrightarrow>
       length (batches ld) = n * steps_per_epoch ld"
  shows "(\<exists>t1 t2 t3 t4.
            fst (main lib) = t1 @ t2 @ t3 @ t4 \<and>
            list_all in_load t1 \<and> list_all in_build t2 \<and>
            list_all in_fit t3 \<and> list_all in_evaluate t4) \<and>
         (\<forall>pre ev post.
            fst (main lib) = pre @ ev # post \<and> eval_forward ev \<longrightarrow>
            (\<exists>t F S n_out loader_tr loader_te.
               load_data lib = (t, Inr (F, S, n_out, loader_tr, loader_te)) \<and>
               length (filter step_done pre) = epochs * steps_per_epoch loader_tr \<and>
               filter step_done post = []))"
proof -
  from main_shape [of lib] obtain t1 t2 t3 t4 where
    m: "fst (main lib) = t1 @ t2 @ t3 @ t4"
    and e1: "list_all in_load t1" and e2: "list_all in_build t2"
    and e3: "list_all in_fit t3" and e4: "list_all in_evaluate t4"
    and fin: "t4 \<noteq> [] \<Longrightarrow>
        \<exists>F S n_out loader_tr loader_te.
           load_data lib = (t1, Inr (F, S, n_out, loader_tr, loader_te)) \<and>
           length (filter step_done t3) = length (batches loader_tr)"
    by blast
  have n1: "list_all (\<lambda>x. \<not> eval_forward x) t1" "list_all (\<lambda>x. \<not> step_done x) t1"
    using e1 by (auto intro: list_all_mono dest: in_load_not)
  have n2: "list_all (\<lambda>x. \<not> eval_forward x) t2" "list_all (\<lambda>x. \<not> step_done x) t2"
    using e2 by (auto intro: list_all_mono dest: in_build_not)
  have n3: "list_all (\<lambda>x. \<not> eval_forward x) t3"
    using e3 by (auto intro: list_all_mono dest: in_fit_not)
  have n4: "list_all (\<lambda>x. \<not> step_done x) t4"
    using e4 by (auto intro: list_all_mono dest: in_evaluate_not)
  have second: "\<exists>t F S n_out loader_tr loader_te.
               load_data lib = (t, Inr (F, S, n_out, loader_tr, loader_te)) \<and>
               length (filter step_done pre) = epochs * steps_per_epoch loader_tr \<and>
               filter step_done post = []"
    if split: "fst (main lib) = pre @ ev # post" and fw: "eval_forward ev" for pre ev post
  proof -
    have "list_all (\<lambda>x. \<not> eval_forward x) (t1 @ t2 @ t3)" using n1 n2 n3 by simp
    moreover have "(t1 @ t2 @ t3) @ t4 = pre @ ev # post" using m split by simp
    ultimately obtain pre' where pre: "pre = (t1 @ t2 @ t3) @ pre'" and t4: "t4 = pre' @ ev # post"
      using fw split_after [of eval_forward "t1 @ t2 @ t3" ev t4 pre post] by blast
    from t4 have "t4 \<noteq> []" by simp
    from fin [OF this] obtain F S n_out loader_tr loader_te where
      l: "load_data lib = (t1, Inr (F, S, n_out, loader_tr, loader_te))"
      and c: "length (filter step_done t3) = length (batches loader_tr)" by blast
    from load_data_loader_tr [OF l] contract
    have len: "length (batches loader_tr) = epochs * steps_per_epoch loader_tr" by blast
    from n4 t4 have n5: "list_all (\<lambda>x. \<not> step_done x) pre'" "list_all (\<lambda>x. \<not> step_done x) post"
      by simp_all
    have "filter step_done pre = filter step_done t3"
      using n1(2) n2(2) n5(1) by (simp add: pre filter_none)
    with c len have "length (filter step_done pre) = epochs * steps_per_epoch loader_tr" by simp
    with l n5(2) show ?thesis by (auto simp: filter_none)
  qed
  show ?thesis
  proof (intro conjI allI impI)
    show "\<exists>t1 t2 t3 t4.
            fst (main lib) = t1 @ t2 @ t3 @ t4 \<and>
            list_all in_load t1 \<and> list_all in_build t2 \<and>
            list_all in_fit t3 \<and> list_all in_evaluate t4"
      using m e1 e2 e3 e4 by blast
  next
    fix pre ev post
    assume "fst (main lib) = pre @ ev # post \<and> eval_forward ev"
    then show "\<exists>t F S n_out loader_tr loader_te.
               load_data lib = (t, Inr (F, S, n_out, loader_tr, loader_te)) \<and>
               length (filter step_done pre) = epochs * steps_per_epoch loader_tr \<and>
               filter step_done post = []"
      using second by blast
  qed
qed

lemma length_chunks_cong:
  "length xs = length ys \<Longrightarrow> length (chunks n xs) = length (chunks n ys)"
proof (induction n xs arbitrary: ys rule: chunks.induct)
  case (1 n)
  then show ?case by simp
next
  case (2 n x xs)
  then obtain y ys' where ys: "ys = y # ys'" by (cases ys) auto
  show ?case
  proof (cases "n = 0")
    case True
    then show ?thesis by (simp add: ys)
  next
    case False
    from 2 have "length (drop n (x # xs)) = length (drop n ys)" by simp
    from "2.IH" [OF False this] False show ?thesis by (simp add: ys)
  qed
qed

lemma disjoint_loader_length:
  assumes "\<And>k. length (order k ds) = length ds"
  shows "length (batches (disjoint_loader order ds bsz n)) =
         n * steps_per_epoch (disjoint_loader order ds bsz n)"
proof -
  have "\<And>k. length (chunks bsz (order k ds)) = length (chunks bsz ds)"
    using assms by (intro length_chunks_cong)
  then show ?thesis
    by (simp add: disjoint_loader_def length_concat comp_def sum_list_triv)
qed

lemma demo_contract:
  "\<forall>ds b n ld. DisjointLoader demo_lib ds b n = Inr ld \<longrightarrow>
     length (batches ld) = n * steps_per_epoch ld"
  using disjoint_loader_length [of "\<lambda>k. rev"] by (auto simp: demo_lib_def)

theorem phases_in_order_witness:
  "(\<exists>t1 t2 t3 t4.
      fst (main demo_lib) = t1 @ t2 @ t3 @ t4 \<and>
      list_all in_load t1 \<and> list_all in_build t2 \<and>
      list_all in_fit t3 \<and> list_all in_evaluate t4) \<and>
   eval_forward (fst (main demo_lib) ! 78) \<and>
   (\<exists>t F S n_out loader_tr loader_te.
      load_data demo_lib = (t, Inr (F, S, n_out, loader_tr, loader_te)) \<and>
      length (filter step_done (take 78 (fst (main demo_lib)))) = epochs * steps_per_epoch loader_tr \<and>
      filter step_done (drop 79 (fst (main demo_lib))) = [])"
proof -
  have fw: "eval_forward (fst (main demo_lib) ! 78)" by code_simp
  have "length (fst (main demo_lib)) = 85" by code_simp
  then have sp: "fst (main demo_lib) =
      take 78 (fst (main demo_lib)) @ fst (main demo_lib) ! 78 # drop 79 (fst (main demo_lib))"
    using id_take_nth_drop [of 78 "fst (main demo_lib)"] by simp
  note th = phases_in_order [of demo_lib, OF demo_contract]
  note second = th [THEN conjunct2, rule_format, OF conjI [OF sp fw]]
  show ?thesis
    by (rule conjI [OF th [THEN conjunct1] conjI [OF fw second]])
qed

subsection \<open>The evaluation phase\<close>

lemma in_evaluate_not_training: "in_evaluate ev \<Longrightarrow> \<not> training_event ev"
  by (cases ev rule: training_event.cases) auto

lemma eval_loop_model:
  assumes inference: "\<forall>model inputs p model'.
      model_call lib model inputs False = Inr (p, model') \<longrightarrow>
      trainable_variables lib model' = trainable_variables lib model"
  shows "eval_loop lib bs (y_true, y_pred, model) = (t, Inr (y_true', y_pred', model')) \<Longrightarrow>
         trainable_variables lib model' = trainable_variables lib model"
proof (induction bs arbitrary: y_true y_pred model t)
  case Nil
  then show ?case by (simp add: ret_Inr_iff)
next
  case (Cons b bs)
  obtain inputs target where b: "b = (inputs, target)" by (cases b)
  from Cons.prems [unfolded b eval_loop.simps prod.case]
  obtain p model1 t2 where c: "model_call lib model inputs False = Inr (p, model1)"
    and k: "eval_loop lib bs (y_true @ [target], y_pred @ [p], model1) = (t2, Inr (y_true', y_pred', model'))"
    by (auto elim!: bind_InrE simp: call_Inr_iff)
  from Cons.IH [OF k] inference c show ?case by auto
qed

text \<open>
  C8. The evaluation phase computes and applies no gradient and makes no forward pass in
  training mode; when a forward pass with \<open>training=False\<close> leaves the trainable
  variables as they are, the model has the same trainable variables when the test loss and
  the ROC-AUC are computed as it had when the training loop finished.
\<close>

theorem evaluation_keeps_trainable_variables:
  assumes inference: "\<forall>model inputs p model'.
      model_call lib model inputs False = Inr (p, model') \<longrightarrow>
      trainable_variables lib model' = trainable_variables lib model"
  shows "list_all (\<lambda>ev. \<not> training_event ev) (fst (evaluate lib loader_te model)) \<and>
         (\<forall>l s model'. snd (evaluate lib loader_te model) = Inr (l, s, model') \<longrightarrow>
            trainable_variables lib model' = trainable_variables lib model)"
proof (intro conjI allI impI)
  show "list_all (\<lambda>ev. \<not> training_event ev) (fst (evaluate lib loader_te model))"
    using evaluate_events [of lib loader_te model]
    by (auto intro: list_all_mono dest: in_evaluate_not_training)
next
  fix l s model'
  assume "snd (evaluate lib loader_te model) = Inr (l, s, model')"
  then obtain t where "evaluate lib loader_te model = (t, Inr (l, s, model'))"
    by (cases "evaluate lib loader_te model") simp
  then obtain t2 y_true y_pred where
    "eval_loop lib (batches loader_te) ([], [], model) = (t2, Inr (y_true, y_pred, model'))"
    unfolding evaluate_def
    by (auto simp: ret_Inr_iff elim!: bind_InrE split: prod.splits)
  from eval_loop_model [OF inference this]
  show "trainable_variables lib model' = trainable_variables lib model" .
qed

theorem evaluation_keeps_trainable_variables_witness:
  "list_all (\<lambda>ev. \<not> training_event ev) (fst (evaluate demo_lib demo_loader_te 10)) \<and>
   snd (evaluate demo_lib demo_loader_te 10) = Inr (21, 1, 10) \<and>
   trainable_variables demo_lib 10 = [[10]]"
proof -
  have h: "\<forall>model inputs p model'.
      model_call demo_lib model inputs False = Inr (p, model') \<longrightarrow>
      trainable_variables demo_lib model' = trainable_variables demo_lib model"
    by (simp add: demo_lib_def demo_model_call_def)
  have r: "snd (evaluate demo_lib demo_loader_te 10) = Inr (21, 1, 10)" by code_simp
  have v: "trainable_variables demo_lib 10 = [[10]]" by (simp add: demo_lib_def)
  from evaluation_keeps_trainable_variables [of demo_lib demo_loader_te 10, OF h] r v
  show ?thesis by simp
qed

subsection \<open>The printed output\<close>

lemma main_cases:
  obtains
    (load_fails) t1 ex where "load_data lib = (t1, Inl ex)" and "main lib = (t1, Inl ex)"
  | (build_fails) t1 F S n_out loader_tr loader_te t2 ex where
      "load_data lib = (t1, Inr (F, S, n_out, loader_tr, loader_te))"
      and "build_model lib F S n_out = (t2, Inl ex)"
      and "main lib = (t1 @ t2, Inl ex)"
  | (fit_fails) t1 F S n_out loader_tr loader_te t2 model opt t3 ex where
      "load_data lib = (t1, Inr (F, S, n_out, loader_tr, loader_te))"
      and "build_model lib F S n_out = (t2, Inr (model, opt))"
      and "fit lib loader_tr model opt = (t3, Inl ex)"
      and "main lib = (t1 @ t2 @ t3, Inl ex)"
  | (evaluated) t1 F S n_out loader_tr loader_te t2 model opt t3 st model' t4 r4 where
      "load_data lib = (t1, Inr (F, S, n_out, loader_tr, loader_te))"
      and "build_model lib F S n_out = (t2, Inr (model, opt))"
      and "fit lib loader_tr model opt = (t3, Inr st)"
      and "model' = fst (snd (snd st))"
      and "evaluate lib loader_te model' = (t4, r4)"
      and "main lib = (t1 @ t2 @ t3 @ t4, r4)"
proof -
  obtain t1 r1 where l: "load_data lib = (t1, r1)" by (cases "load_data lib")
  show ?thesis
  proof (cases r1)
    case (Inl ex)
    with l show ?thesis by (intro load_fails [of t1 ex]) (simp_all add: main_def bind_Inl)
  next
    case (Inr d)
    obtain F S n_out loader_tr loader_te where d: "d = (F, S, n_out, loader_tr, loader_te)"
      by (cases d) auto
    obtain t2 r2 where b: "build_model lib F S n_out = (t2, r2)" by (cases "build_model lib F S n_out")
    show ?thesis
    proof (cases r2)
      case (Inl ex)
      with l Inr d b show ?thesis
        by (intro build_fails [of t1 F S n_out loader_tr loader_te t2 ex])
           (simp_all add: main_def bind_Inl bind_Inr)
    next
      case r2: (Inr mo)
      obtain model opt where mo: "mo = (model, opt)" by (cases mo)
      obtain t3 r3 where f: "fit lib loader_tr model opt = (t3, r3)"
        by (cases "fit lib loader_tr model opt")
      show ?thesis
      proof (cases r3)
        case (Inl ex)
        with l Inr d b r2 mo f show ?thesis
          by (intro fit_fails [of t1 F S n_out loader_tr loader_te t2 model opt t3 ex])
             (simp_all add: main_def bind_Inl bind_Inr)
      next
        case r3: (Inr st)
        obtain current_batch model_loss model' opt' where
          st: "st = (current_batch, model_loss, model', opt')" by (cases st) auto
        obtain t4 r4 where ev: "evaluate lib loader_te model' = (t4, r4)"
          by (cases "evaluate lib loader_te model'")
        with l Inr d b r2 mo f r3 st show ?thesis
          by (intro evaluated [of t1 F S n_out loader_tr loader_te t2 model opt t3 st model' t4 r4])
             (simp_all add: main_def bind_Inr)
      qed
    qed
  qed
qed

lemma printed_load: "list_all in_load t \<Longrightarrow> printed t = []"
  by (induction t rule: printed.induct) auto

lemma printed_build: "list_all in_build t \<Longrightarrow> printed t = []"
  by (induction t rule: printed.induct) auto

lemma printed_bind_Inl: "snd m = Inl ex \<Longrightarrow> printed (fst (bind m f)) = printed (fst m)"
  by (cases m) (simp add: bind_Inl)

lemma train_loop_printed: "\<exists>vs. printed (fst (train_loop lib spe bs st)) = map Loss vs"
proof (induction bs arbitrary: st)
  case Nil
  show ?case by (simp add: ret_def)
next
  case (Cons b bs)
  obtain current_batch model_loss model opt where st: "st = (current_batch, model_loss, model, opt)"
    by (cases st) auto
  obtain ts r where ts: "train_step lib model opt (fst b) (snd b) = (ts, r)"
    by (cases "train_step lib model opt (fst b) (snd b)")
  have silent: "printed ts = []" using printed_train_step [of lib model opt "fst b" "snd b"] ts by simp
  show ?case
  proof (cases r)
    case (Inl ex)
    with ts silent have "printed (fst (train_loop lib spe (b # bs) st)) = map Loss []"
      by (simp add: st bind_Inl)
    then show ?thesis by blast
  next
    case (Inr res)
    obtain outs model' opt' where res: "res = (outs, model', opt')" by (cases res) auto
    show ?thesis
    proof (cases "current_batch + 1 = spe")
      case True
      from Cons.IH [of "(0, tf_const lib 0, model', opt')"] obtain vs where
        "printed (fst (train_loop lib spe bs (0, tf_const lib 0, model', opt'))) = map Loss vs" by blast
      with ts silent Inr res True
      have "printed (fst (train_loop lib spe (b # bs) st)) =
            map Loss (tf_div lib (tf_add lib model_loss outs) (tf_const lib (int spe)) # vs)"
        by (simp add: st bind_Inr print_def printed_append)
      then show ?thesis by blast
    next
      case False
      from Cons.IH [of "(current_batch + 1, tf_add lib model_loss outs, model', opt')"] obtain vs where
        "printed (fst (train_loop lib spe bs (current_batch + 1, tf_add lib model_loss outs, model', opt'))) = map Loss vs"
        by blast
      with ts silent Inr res False
      have "printed (fst (train_loop lib spe (b # bs) st)) = map Loss vs"
        by (simp add: st bind_Inr printed_append)
      then show ?thesis by blast
    qed
  qed
qed

lemma fit_printed: "\<exists>vs. printed (fst (fit lib loader_tr model opt)) = Fitting_model # map Loss vs"
proof -
  from train_loop_printed obtain vs where
    "printed (fst (train_loop lib (steps_per_epoch loader_tr) (batches loader_tr)
       (0, tf_const lib 0, model, opt))) = map Loss vs" by blast
  then have "printed (fst (fit lib loader_tr model opt)) = Fitting_model # map Loss vs"
    by (simp add: fit_def print_def bind_Inr)
  then show ?thesis by blast
qed

lemma eval_loop_all:
  assumes "\<And>r. P (Call (C_model False) r)"
  shows "list_all P (fst (eval_loop lib bs st))"
proof (induction bs arbitrary: st)
  case Nil
  show ?case by (simp add: all_ret)
next
  case (Cons b bs)
  obtain y_true y_pred model where st: "st = (y_true, y_pred, model)" by (cases st) auto
  obtain inputs target where b: "b = (inputs, target)" by (cases b)
  show ?case unfolding st b eval_loop.simps prod.case
    by (intro all_intros Cons.IH assms)
qed

lemma printed_silent: "list_all (\<lambda>ev. \<forall>l. ev \<noteq> Print l) t \<Longrightarrow> printed t = []"
  by (induction t rule: printed.induct) auto

lemma final_bind:
  assumes "printed (fst m) = []" and "\<And>v. ends_with_final (f v)"
  shows "ends_with_final (bind m f)"
proof (cases m)
  case (Pair t r)
  show ?thesis
  proof (cases r)
    case (Inl ex)
    with Pair assms(1) show ?thesis by (simp add: ends_with_final_def bind_Inl)
  next
    case (Inr v)
    with Pair assms(1) assms(2) [of v] show ?thesis
      by (cases "snd (f v)") (auto simp: ends_with_final_def bind_Inr printed_append)
  qed
qed

lemma final_case_prod: "(\<And>a b. ends_with_final (f a b)) \<Longrightarrow> ends_with_final (case_prod f p)"
  by (cases p) simp

lemma printed_subscript: "printed (fst (subscript d k)) = []"
  by (simp add: subscript_def call_def)

lemma printed_eval_loop: "printed (fst (eval_loop lib bs st)) = []"
  by (intro printed_silent eval_loop_all) simp

lemma final_done: "ends_with_final (bind (print (Done l s)) (\<lambda>_. ret (l, s, model)))"
  by (simp add: ends_with_final_def print_def ret_def bind_Inr)

lemma output_bind:
  assumes "\<And>v. ends_with_final (f v)"
  shows "evaluate_output (bind (print Testing_model) f)"
  using assms [of "()"]
  by (cases "snd (f ())") (auto simp: evaluate_output_def ends_with_final_def print_def bind_Inr)

lemma evaluate_printed: "evaluate_output (evaluate lib loader_te model)"
  unfolding evaluate_def
  by (intro output_bind final_bind final_case_prod final_done printed_call printed_subscript
      printed_eval_loop)

lemma after_banner_losses: "after_banner (map Loss vs @ ls) = after_banner ls"
  by (induction vs) simp_all

text \<open>
  C10, as amended. No run of the script performs a file operation of its own, and what a
  run prints is, in this order: the banner \<open>Fitting model\<close>, the per-epoch losses, the
  banner \<open>Testing model\<close> and the final line with the test loss and the ROC-AUC; a run
  that ends normally prints all of it, with the values it returns in the final line.
\<close>

theorem printed_output_shape:
  "list_all (\<lambda>ev. \<not> file_event ev) (fst (main lib)) \<and>
   output_shape (printed (fst (main lib))) \<and>
   (\<forall>l s model. snd (main lib) = Inr (l, s, model) \<longrightarrow>
      (\<exists>vs. printed (fst (main lib)) = Fitting_model # map Loss vs @ [Testing_model, Done l s]))"
proof (intro conjI allI impI)
  have 1: "list_all (\<lambda>ev. \<not> file_event ev) (fst (load_data lib))"
    using load_events [of lib] by (rule list_all_mono) (auto elim: in_load.elims)
  have 2: "list_all (\<lambda>ev. \<not> file_event ev) (fst (build_model lib F S n_out))" for F S n_out
    using build_events [of lib F S n_out] by (rule list_all_mono) (auto elim: in_build.elims)
  have 3: "list_all (\<lambda>ev. \<not> file_event ev) (fst (fit lib loader_tr model opt))"
    for loader_tr model opt
    using fit_events [of lib loader_tr model opt] by (rule list_all_mono) (auto elim: in_fit.elims)
  have 4: "list_all (\<lambda>ev. \<not> file_event ev) (fst (evaluate lib loader_te model))"
    for loader_te model
    using evaluate_events [of lib loader_te model]
    by (rule list_all_mono) (auto elim: in_evaluate.elims)
  show "list_all (\<lambda>ev. \<not> file_event ev) (fst (main lib))"
    unfolding main_def by (intro all_intros 1 2 3 4)
next
  show "output_shape (printed (fst (main lib)))"
  proof (cases lib rule: main_cases)
    case (load_fails t1 ex)
    with load_events [of lib] show ?thesis by (simp add: printed_load)
  next
    case (build_fails t1 F S n_out loader_tr loader_te t2 ex)
    with load_events [of lib] build_events [of lib F S n_out] show ?thesis
      by (simp add: printed_load printed_build printed_append)
  next
    case (fit_fails t1 F S n_out loader_tr loader_te t2 model opt t3 ex)
    from fit_printed [of lib loader_tr model opt] fit_fails obtain vs where
      "printed t3 = Fitting_model # map Loss vs" by auto
    with fit_fails load_events [of lib] build_events [of lib F S n_out] show ?thesis
      using after_banner_losses [of vs "[]"]
      by (simp add: printed_load printed_build printed_append)
  next
    case (evaluated t1 F S n_out loader_tr loader_te t2 model opt t3 st model' t4 r4)
    from fit_printed [of lib loader_tr model opt] evaluated obtain vs where
      vs: "printed t3 = Fitting_model # map Loss vs" by auto
    from evaluate_printed [of lib loader_te model'] evaluated
    have "is_tail (printed t4)"
      by (cases r4) (auto simp: evaluate_output_def)
    then have "after_banner (printed t4)" by (cases "printed t4" rule: after_banner.cases) auto
    with vs evaluated load_events [of lib] build_events [of lib F S n_out] show ?thesis
      by (simp add: printed_load printed_build printed_append after_banner_losses)
  qed
next
  fix l s model
  assume ok: "snd (main lib) = Inr (l, s, model)"
  show "\<exists>vs. printed (fst (main lib)) = Fitting_model # map Loss vs @ [Testing_model, Done l s]"
  proof (cases lib rule: main_cases)
    case (load_fails t1 ex)
    with ok show ?thesis by simp
  next
    case (build_fails t1 F S n_out loader_tr loader_te t2 ex)
    with ok show ?thesis by simp
  next
    case (fit_fails t1 F S n_out loader_tr loader_te t2 model opt t3 ex)
    with ok show ?thesis by simp
  next
    case (evaluated t1 F S n_out loader_tr loader_te t2 model0 opt t3 st model' t4 r4)
    from fit_printed [of lib loader_tr model0 opt] evaluated obtain vs where
      vs: "printed t3 = Fitting_model # map Loss vs" by auto
    from evaluated ok have r4: "r4 = Inr (l, s, model)" by simp
    from evaluate_printed [of lib loader_te model'] evaluated r4
    have "printed t4 = [Testing_model, Done l s]" by (simp add: evaluate_output_def)
    with vs evaluated load_events [of lib] build_events [of lib F S n_out]
    have "printed (fst (main lib)) = Fitting_model # map Loss vs @ [Testing_model, Done l s]"
      by (simp add: printed_load printed_build printed_append)
    then show ?thesis by blast
  qed
qed

text \<open>
  C10, as stated, says that the only outputs are the per-epoch losses and the final line.
  The run on the small library also prints the two banners.
\<close>

theorem only_losses_and_final_line_counterexample:
  "\<not> list_all loss_or_final (printed (fst (main demo_lib)))"
  by code_simp

theorem printed_output_shape_witness:
  "snd (main demo_lib) = Inr (21, 1, 10) \<and>
   list_all (\<lambda>ev. \<not> file_event ev) (fst (main demo_lib)) \<and>
   output_shape (printed (fst (main demo_lib))) \<and>
   (\<exists>vs. printed (fst (main demo_lib)) = Fitting_model # map Loss vs @ [Testing_model, Done 21 1])"
proof -
  have r: "snd (main demo_lib) = Inr (21, 1, 10)" by code_simp
  with printed_output_shape [of demo_lib] show ?thesis by simp
qed

subsection \<open>The configuration\<close>

lemma load_data_loaders:
  assumes "load_data lib = (t, Inr (F, S, n_out, loader_tr, loader_te))"
  shows "\<exists>ds ds'. DisjointLoader lib ds batch_size epochs = Inr loader_tr \<and>
                  DisjointLoader lib ds' batch_size 1 = Inr loader_te"
  using assms unfolding load_data_def
  by (elim bind_InrE) (auto simp: call_Inr_iff ret_Inr_iff)

lemma in_fit_configured: "in_fit ev \<Longrightarrow> configured ev"
  by (cases ev rule: configured.cases) auto

text \<open>
  C5. The dataset name is \<open>ogbg-molhiv\<close>, the learning rate 1e-3, the number of epochs
  10 and the batch size 32; they are constants, independent of everything a run computes.
  In every run the dataset and the evaluator are created with that name, the optimizer with
  that learning rate, and both loaders with that batch size, the training loader for 10
  epochs and the test loader for one.
\<close>

theorem configuration_constants:
  "dataset_name = ''ogbg-molhiv'' \<and> learning_rate = 1 / 1000 \<and> epochs = 10 \<and> batch_size = 32 \<and>
   list_all configured (fst (main lib)) \<and>
   (\<forall>t F S n_out loader_tr loader_te.
      load_data lib = (t, Inr (F, S, n_out, loader_tr, loader_te)) \<longrightarrow>
      (\<exists>ds ds'. DisjointLoader lib ds 32 10 = Inr loader_tr \<and>
                DisjointLoader lib ds' 32 1 = Inr loader_te))"
proof -
  have 1: "list_all configured (fst (load_data lib))"
    unfolding load_data_def
    by (intro all_intros) (simp_all add: dataset_name_def batch_size_def epochs_def)
  have 2: "list_all configured (fst (build_model lib F S n_out))" for F S n_out
    unfolding build_model_def by (intro all_intros) (simp_all add: learning_rate_def)
  have 3: "list_all configured (fst (fit lib loader_tr model opt))" for loader_tr model opt
    using fit_events [of lib loader_tr model opt] by (rule list_all_mono) (rule in_fit_configured)
  have 4: "list_all configured (fst (evaluate lib loader_te model))" for loader_te model
    unfolding evaluate_def
    by (intro all_intros eval_loop_all) (simp_all add: dataset_name_def)
  have "list_all configured (fst (main lib))"
    unfolding main_def by (intro all_intros 1 2 3 4)
  moreover have "\<exists>ds ds'. DisjointLoader lib ds 32 10 = Inr loader_tr \<and>
                DisjointLoader lib ds' 32 1 = Inr loader_te"
    if "load_data lib = (t, Inr (F, S, n_out, loader_tr, loader_te))"
    for t F S n_out loader_tr loader_te
    using load_data_loaders [OF that] by (simp add: batch_size_def epochs_def)
  ultimately show ?thesis
    by (simp add: dataset_name_def learning_rate_def epochs_def batch_size_def)
qed

theorem configuration_constants_witness:
  "list_all configured (fst (main demo_lib)) \<and>
   (\<exists>t F S n_out loader_tr loader_te ds ds'.
      load_data demo_lib = (t, Inr (F, S, n_out, loader_tr, loader_te)) \<and>
      DisjointLoader demo_lib ds 32 10 = Inr loader_tr \<and>
      DisjointLoader demo_lib ds' 32 1 = Inr loader_te)"
proof -
  have "\<not> isl (snd (load_data demo_lib))" by code_simp
  then obtain t F S n_out loader_tr loader_te where
    l: "load_data demo_lib = (t, Inr (F, S, n_out, loader_tr, loader_te))"
    by (cases "load_data demo_lib"; cases "snd (load_data demo_lib)") auto
  note th = configuration_constants [of demo_lib]
  from th have a: "list_all configured (fst (main demo_lib))" by simp
  from th l have "\<exists>ds ds'. DisjointLoader demo_lib ds 32 10 = Inr loader_tr \<and>
                DisjointLoader demo_lib ds' 32 1 = Inr loader_te" by blast
  with a l show ?thesis by blast
qed

subsection \<open>The validation split\<close>

lemma bind_cong_Inr:
  assumes "\<And>t v. m = (t, Inr v) \<Longrightarrow> f v = g v"
  shows "bind m f = bind m g"
proof (cases m)
  case (Pair t r)
  with assms show ?thesis by (cases r) (simp_all add: bind_Inl bind_Inr)
qed

lemma bind_call_Inr: "bind (call c (Inr v)) f = prepend (Call c None) (f v)"
  by (simp add: call_def raised_def bind_Inr prepend_def)

lemma bind_call_Inl: "bind (call c (Inl ex)) f = ([Call c (Some ex)], Inl ex)"
  by (simp add: call_def raised_def bind_Inl)

lemma with_validation_simps:
  "GraphPropPredDataset (with_validation va lib) = GraphPropPredDataset lib"
  "OGB (with_validation va lib) = OGB lib"
  "n_node_features (with_validation va lib) = n_node_features lib"
  "n_edge_features (with_validation va lib) = n_edge_features lib"
  "n_labels (with_validation va lib) = n_labels lib"
  "getitem (with_validation va lib) = getitem lib"
  "DisjointLoader (with_validation va lib) = DisjointLoader lib"
  "Input (with_validation va lib) = Input lib"
  "ECCConv (with_validation va lib) = ECCConv lib"
  "GlobalSumPool (with_validation va lib) = GlobalSumPool lib"
  "Dense (with_validation va lib) = Dense lib"
  "Model (with_validation va lib) = Model lib"
  "Adam (with_validation va lib) = Adam lib"
  "BinaryCrossentropy (with_validation va lib) = BinaryCrossentropy lib"
  "model_call (with_validation va lib) = model_call lib"
  "loss_fn (with_validation va lib) = loss_fn lib"
  "losses (with_validation va lib) = losses lib"
  "gradient (with_validation va lib) = gradient lib"
  "apply_gradients (with_validation va lib) = apply_gradients lib"
  "Evaluator (with_validation va lib) = Evaluator lib"
  "evaluator_eval (with_validation va lib) = evaluator_eval lib"
  "np_vstack (with_validation va lib) = np_vstack lib"
  "tf_const (with_validation va lib) = tf_const lib"
  "tf_add (with_validation va lib) = tf_add lib"
  "tf_div (with_validation va lib) = tf_div lib"
  by (simp_all add: with_validation_def)

lemma train_step_with_validation:
  "train_step (with_validation va lib) = train_step lib"
  by (intro ext) (simp add: train_step_def py_sum_def with_validation_simps)

lemma train_loop_with_validation:
  "train_loop (with_validation va lib) spe bs st = train_loop lib spe bs st"
proof (induction bs arbitrary: st)
  case Nil
  show ?case by simp
next
  case (Cons b bs)
  obtain current_batch model_loss model opt where st: "st = (current_batch, model_loss, model, opt)"
    by (cases st) auto
  show ?case
    by (simp add: st train_step_with_validation with_validation_simps Cons.IH Let_def
        cong: if_cong)
qed

lemma eval_loop_with_validation:
  "eval_loop (with_validation va lib) bs st = eval_loop lib bs st"
proof (induction bs arbitrary: st)
  case Nil
  show ?case by simp
next
  case (Cons b bs)
  obtain y_true y_pred model where st: "st = (y_true, y_pred, model)" by (cases st) auto
  show ?case by (simp add: st with_validation_simps Cons.IH split: prod.splits)
qed

lemma load_data_with_validation:
  assumes h1: "\<forall>d ds idx.
      GraphPropPredDataset lib dataset_name = Inr d \<and> OGB lib d = Inr ds \<and>
      get_idx_split lib d = Inr idx \<longrightarrow>
      (\<exists>va r. idx ''valid'' = Some va \<and> getitem lib ds va = Inr r)"
    and h2: "\<forall>d ds.
      GraphPropPredDataset lib dataset_name = Inr d \<and> OGB lib d = Inr ds \<longrightarrow>
      (\<exists>r. getitem lib ds va' = Inr r)"
  shows "load_data (with_validation va' lib) = load_data lib"
  unfolding load_data_def with_validation_simps
proof (intro bind_cong_Inr, goal_cases)
  case (1 t0 d t1 ds t2 F t3 S t4 n_out)
  then have gp: "GraphPropPredDataset lib dataset_name = Inr d" and og: "OGB lib d = Inr ds"
    by (simp_all add: call_Inr_iff)
  show ?case
  proof (cases "get_idx_split lib d")
    case (Inl ex)
    then show ?thesis by (simp add: with_validation_def bind_call_Inl)
  next
    case (Inr idx)
    from h1 gp og Inr obtain va r where va: "idx ''valid'' = Some va" "getitem lib ds va = Inr r"
      by blast
    from h2 gp og obtain r' where va': "getitem lib ds va' = Inr r'" by blast
    show ?thesis
      by (simp add: with_validation_def Inr subscript_def va va' bind_call_Inr)
  qed
qed

text \<open>
  C9. The subset \<open>dataset_va\<close> is built and never read: two runs on libraries that differ
  only in the validation indices of the split, and in both of which the selection of the
  validation subset succeeds, are the same run, event by event, with the same outcome (the
  same training steps, printed lines, test loss, ROC-AUC and final model).
\<close>

theorem validation_split_unused:
  assumes "\<forall>d ds idx.
      GraphPropPredDataset lib dataset_name = Inr d \<and> OGB lib d = Inr ds \<and>
      get_idx_split lib d = Inr idx \<longrightarrow>
      (\<exists>va r. idx ''valid'' = Some va \<and> getitem lib ds va = Inr r)"
    and "\<forall>d ds.
      GraphPropPredDataset lib dataset_name = Inr d \<and> OGB lib d = Inr ds \<longrightarrow>
      (\<exists>r. getitem lib ds va' = Inr r)"
  shows "main (with_validation va' lib) = main lib"
proof -
  have "build_model (with_validation va' lib) = build_model lib"
    by (intro ext) (simp add: build_model_def with_validation_simps)
  moreover have "fit (with_validation va' lib) = fit lib"
    by (intro ext) (simp add: fit_def train_loop_with_validation with_validation_simps)
  moreover have "evaluate (with_validation va' lib) = evaluate lib"
    by (intro ext) (simp add: evaluate_def eval_loop_with_validation with_validation_simps)
  ultimately show ?thesis
    using load_data_with_validation [OF assms] by (simp add: main_def)
qed

theorem validation_split_unused_witness:
  "get_idx_split (with_validation [1, 3] demo_lib) () = Inr (demo_split(''valid'' \<mapsto> [1, 3])) \<and>
   get_idx_split demo_lib () = Inr demo_split \<and>
   demo_split ''valid'' = Some [2] \<and>
   main (with_validation [1, 3] demo_lib) = main demo_lib"
proof -
  have h1: "\<forall>d ds idx.
      GraphPropPredDataset demo_lib dataset_name = Inr d \<and> OGB demo_lib d = Inr ds \<and>
      get_idx_split demo_lib d = Inr idx \<longrightarrow>
      (\<exists>va r. idx ''valid'' = Some va \<and> getitem demo_lib ds va = Inr r)"
    by (auto simp: demo_lib_def demo_split_def demo_getitem_def demo_graphs_def)
  have h2: "\<forall>d ds.
      GraphPropPredDataset demo_lib dataset_name = Inr d \<and> OGB demo_lib d = Inr ds \<longrightarrow>
      (\<exists>r. getitem demo_lib ds [1, 3] = Inr r)"
    by (auto simp: demo_lib_def demo_getitem_def demo_graphs_def)
  have "get_idx_split (with_validation [1, 3] demo_lib) () = Inr (demo_split(''valid'' \<mapsto> [1, 3]))"
    by (simp add: with_validation_def demo_lib_def)
  moreover have "get_idx_split demo_lib () = Inr demo_split" by (simp add: demo_lib_def)
  moreover have "demo_split ''valid'' = Some [2]" by (simp add: demo_split_def)
  ultimately show ?thesis using validation_split_unused [of demo_lib "[1, 3]", OF h1 h2] by simp
qed

subsection \<open>Batches of the disjoint loader\<close>

lemma chunks_props:
  "0 < n \<Longrightarrow> c \<in> set (chunks n xs) \<Longrightarrow> c \<noteq> [] \<and> length c \<le> n \<and> set c \<subseteq> set xs"
proof (induction n xs rule: chunks.induct)
  case (1 n)
  then show ?case by simp
next
  case (2 n x xs)
  from "2.prems" have "c = take n (x # xs) \<or> c \<in> set (chunks n (drop n (x # xs)))" by simp
  then show ?case
  proof
    assume c: "c = take n (x # xs)"
    with "2.prems"(1) show ?thesis by (auto dest: in_set_takeD)
  next
    assume "c \<in> set (chunks n (drop n (x # xs)))"
    with "2.IH" "2.prems"(1) have "c \<noteq> [] \<and> length c \<le> n \<and> set c \<subseteq> set (drop n (x # xs))" by simp
    then show ?thesis using set_drop_subset [of n "x # xs"] by blast
  qed
qed


lemma index_vector_length: "length (index_vector k gs) = sum_list (map n_nodes gs)"
  by (induction gs arbitrary: k) simp_all

lemma features_length: "length (concat (map node_features gs)) = sum_list (map n_nodes gs)"
  by (induction gs) (simp_all add: n_nodes_def)

lemma node_offset_Cons: "node_offset (g # gs) (Suc k) = n_nodes g + node_offset gs k"
  by (simp add: node_offset_def)

lemma node_offset_0: "node_offset gs 0 = 0"
  by (simp add: node_offset_def)

lemma node_in_range:
  "k < length gs \<Longrightarrow> p < n_nodes (gs ! k) \<Longrightarrow> node_offset gs k + p < sum_list (map n_nodes gs)"
proof (induction gs arbitrary: k)
  case Nil
  then show ?case by simp
next
  case (Cons g gs)
  then show ?case
    by (cases k) (auto simp: node_offset_Cons node_offset_0)
qed

lemma index_vector_nth:
  "k < length gs \<Longrightarrow> p < n_nodes (gs ! k) \<Longrightarrow>
   index_vector k0 gs ! (node_offset gs k + p) = k0 + k"
proof (induction gs arbitrary: k k0)
  case Nil
  then show ?case by simp
next
  case (Cons g gs)
  show ?case
  proof (cases k)
    case 0
    with Cons.prems show ?thesis by (simp add: node_offset_0 nth_append)
  next
    case (Suc k')
    with Cons.prems have "index_vector (Suc k0) gs ! (node_offset gs k' + p) = Suc k0 + k'"
      by (intro Cons.IH) simp_all
    with Suc show ?thesis by (simp add: node_offset_Cons nth_append add.assoc)
  qed
qed

lemma features_nth:
  "k < length gs \<Longrightarrow> p < n_nodes (gs ! k) \<Longrightarrow>
   concat (map node_features gs) ! (node_offset gs k + p) = node_features (gs ! k) ! p"
proof (induction gs arbitrary: k)
  case Nil
  then show ?case by simp
next
  case (Cons g gs)
  show ?case
  proof (cases k)
    case 0
    with Cons.prems show ?thesis by (simp add: node_offset_0 nth_append n_nodes_def)
  next
    case (Suc k')
    with Cons.prems have "concat (map node_features gs) ! (node_offset gs k' + p) =
        node_features (gs ! k') ! p"
      by (intro Cons.IH) simp_all
    with Suc show ?thesis by (simp add: node_offset_Cons nth_append n_nodes_def add.assoc)
  qed
qed

lemma block_diagonal_entries:
  "((i, j), v) \<in> set (block_diagonal off gs) \<longleftrightarrow>
   (\<exists>k i' j'. k < length gs \<and> ((i', j'), v) \<in> set (adjacency (gs ! k)) \<and>
      i = off + node_offset gs k + i' \<and> j = off + node_offset gs k + j')"
proof (induction gs arbitrary: off)
  case Nil
  show ?case by simp
next
  case (Cons g gs)
  have here: "((i, j), v) \<in> (\<lambda>((i, j), v). ((off + i, off + j), v)) ` set (adjacency g) \<longleftrightarrow>
      (\<exists>i' j'. ((i', j'), v) \<in> set (adjacency g) \<and> i = off + i' \<and> j = off + j')"
    by force
  have later: "(\<exists>k i' j'. k < length gs \<and> ((i', j'), v) \<in> set (adjacency (gs ! k)) \<and>
        i = off + n_nodes g + node_offset gs k + i' \<and> j = off + n_nodes g + node_offset gs k + j') \<longleftrightarrow>
      (\<exists>k i' j'. 0 < k \<and> k < Suc (length gs) \<and> ((i', j'), v) \<in> set (adjacency ((g # gs) ! k)) \<and>
        i = off + node_offset (g # gs) k + i' \<and> j = off + node_offset (g # gs) k + j')"
    (is "?L \<longleftrightarrow> ?R")
  proof
    assume ?L
    then obtain k i' j' where "k < length gs" "((i', j'), v) \<in> set (adjacency (gs ! k))"
      "i = off + n_nodes g + node_offset gs k + i'" "j = off + n_nodes g + node_offset gs k + j'"
      by blast
    then show ?R
      by (intro exI [of _ "Suc k"] exI [of _ i'] exI [of _ j']) (simp add: node_offset_Cons)
  next
    assume ?R
    then obtain k i' j' where k: "0 < k" "k < Suc (length gs)"
      "((i', j'), v) \<in> set (adjacency ((g # gs) ! k))"
      "i = off + node_offset (g # gs) k + i'" "j = off + node_offset (g # gs) k + j'"
      by blast
    then obtain k' where "k = Suc k'" by (cases k) auto
    with k show ?L
      by (intro exI [of _ k'] exI [of _ i'] exI [of _ j']) (simp add: node_offset_Cons)
  qed
  have split: "(\<exists>k i' j'. k < Suc (length gs) \<and> ((i', j'), v) \<in> set (adjacency ((g # gs) ! k)) \<and>
        i = off + node_offset (g # gs) k + i' \<and> j = off + node_offset (g # gs) k + j') \<longleftrightarrow>
      (\<exists>i' j'. ((i', j'), v) \<in> set (adjacency g) \<and> i = off + i' \<and> j = off + j') \<or>
      (\<exists>k i' j'. 0 < k \<and> k < Suc (length gs) \<and> ((i', j'), v) \<in> set (adjacency ((g # gs) ! k)) \<and>
        i = off + node_offset (g # gs) k + i' \<and> j = off + node_offset (g # gs) k + j')"
    (is "?A \<longleftrightarrow> ?B \<or> ?C")
  proof
    assume ?A
    then obtain k i' j' where k: "k < Suc (length gs)"
      "((i', j'), v) \<in> set (adjacency ((g # gs) ! k))"
      "i = off + node_offset (g # gs) k + i'" "j = off + node_offset (g # gs) k + j'"
      by blast
    show "?B \<or> ?C"
    proof (cases k)
      case 0
      with k have ?B by (auto simp: node_offset_0)
      then show ?thesis ..
    next
      case (Suc k')
      with k have ?C by blast
      then show ?thesis ..
    qed
  next
    assume "?B \<or> ?C"
    then show ?A
    proof
      assume ?B
      then obtain i' j' where "((i', j'), v) \<in> set (adjacency g)" "i = off + i'" "j = off + j'"
        by blast
      then show ?A
        by (intro exI [of _ 0] exI [of _ i'] exI [of _ j']) (simp add: node_offset_0)
    next
      assume ?C
      then show ?A by blast
    qed
  qed
  show ?case
    using Cons.IH [of "off + n_nodes g"] here later split by simp
qed

lemma batches_collate:
  assumes "b \<in> set (batches (disjoint_loader order dataset bsz n_epochs))"
  shows "\<exists>k gs. k < n_epochs \<and> gs \<in> set (chunks bsz (order k dataset)) \<and> b = collate gs"
  using assms by (auto simp: disjoint_loader_def)

lemma collate_block_diagonal:
  assumes ok: "list_all graph_ok gs" and e: "((i, j), v) \<in> set (block_diagonal 0 gs)"
  shows "i < length (index_vector 0 gs) \<and> j < length (index_vector 0 gs) \<and>
         index_vector 0 gs ! i = index_vector 0 gs ! j"
proof -
  from e obtain k i' j' where k: "k < length gs" and a: "((i', j'), v) \<in> set (adjacency (gs ! k))"
    and i: "i = node_offset gs k + i'" and j: "j = node_offset gs k + j'"
    by (auto simp: block_diagonal_entries)
  from ok k have "graph_ok (gs ! k)" by (simp add: list_all_length)
  with a have r: "i' < n_nodes (gs ! k)" "j' < n_nodes (gs ! k)"
    by (auto simp: graph_ok_def list_all_iff)
  from index_vector_nth [OF k r(1), of 0] index_vector_nth [OF k r(2), of 0]
    node_in_range [OF k r(1)] node_in_range [OF k r(2)]
  show ?thesis by (simp add: i j index_vector_length)
qed

text \<open>
  C7. With a positive batch size, an order that visits graphs of the dataset only, and
  graphs whose adjacency entries lie within their nodes, every batch the loader yields is
  the disjoint union of between one and \<open>batch_size\<close> graphs of the dataset, with their
  labels as target: the index vector has one entry per node and gives node \<open>p\<close> of the
  \<open>k\<close>-th graph the index \<open>k\<close>; the adjacency of the batch consists of the entries of the
  graphs, each moved to the block of its graph, so both ends of an entry carry the same
  index.
\<close>

theorem batches_are_disjoint_unions:
  assumes "0 < bsz"
      and "\<forall>k. set (order k dataset) \<subseteq> set dataset"
      and "list_all graph_ok dataset"
      and "b \<in> set (batches (disjoint_loader order dataset bsz n_epochs))"
  shows "\<exists>gs. gs \<noteq> [] \<and> length gs \<le> bsz \<and> set gs \<subseteq> set dataset \<and>
           b = collate gs \<and> snd b = map label gs \<and>
           length (inp_i (fst b)) = length (inp_x (fst b)) \<and>
           (\<forall>k p. k < length gs \<and> p < n_nodes (gs ! k) \<longrightarrow>
              node_offset gs k + p < length (inp_i (fst b)) \<and>
              inp_i (fst b) ! (node_offset gs k + p) = k \<and>
              inp_x (fst b) ! (node_offset gs k + p) = node_features (gs ! k) ! p) \<and>
           (\<forall>i j v. ((i, j), v) \<in> set (inp_a (fst b)) \<longleftrightarrow>
              (\<exists>k i' j'. k < length gs \<and> ((i', j'), v) \<in> set (adjacency (gs ! k)) \<and>
                 i = node_offset gs k + i' \<and> j = node_offset gs k + j')) \<and>
           (\<forall>i j v. ((i, j), v) \<in> set (inp_a (fst b)) \<longrightarrow>
              i < length (inp_i (fst b)) \<and> j < length (inp_i (fst b)) \<and>
              inp_i (fst b) ! i = inp_i (fst b) ! j)"
proof -
  from batches_collate [OF assms(4)] obtain k gs where
    gs: "gs \<in> set (chunks bsz (order k dataset))" and b: "b = collate gs" by blast
  from chunks_props [OF assms(1) gs] assms(2)
  have p: "gs \<noteq> []" "length gs \<le> bsz" "set gs \<subseteq> set dataset" by auto
  from p(3) assms(3) have ok: "list_all graph_ok gs" by (auto simp: list_all_iff)
  have nodes: "node_offset gs k + p < length (inp_i (fst b)) \<and>
              inp_i (fst b) ! (node_offset gs k + p) = k \<and>
              inp_x (fst b) ! (node_offset gs k + p) = node_features (gs ! k) ! p"
    if "k < length gs \<and> p < n_nodes (gs ! k)" for k p
    using that index_vector_nth [of k gs p 0] features_nth [of k gs p] node_in_range [of k gs p]
    by (simp add: b collate_def index_vector_length)
  have entries: "((i, j), v) \<in> set (inp_a (fst b)) \<longleftrightarrow>
              (\<exists>k i' j'. k < length gs \<and> ((i', j'), v) \<in> set (adjacency (gs ! k)) \<and>
                 i = node_offset gs k + i' \<and> j = node_offset gs k + j')" for i j v
    using block_diagonal_entries [of i j v 0 gs] by (simp add: b collate_def)
  have blocks: "i < length (inp_i (fst b)) \<and> j < length (inp_i (fst b)) \<and>
              inp_i (fst b) ! i = inp_i (fst b) ! j"
    if "((i, j), v) \<in> set (inp_a (fst b))" for i j v
    using that collate_block_diagonal [OF ok, of i j v] by (simp add: b collate_def)
  have len: "length (inp_i (fst b)) = length (inp_x (fst b))"
    by (simp add: b collate_def index_vector_length features_length)
  have lab: "snd b = map label gs" by (simp add: b collate_def)
  from p b lab len nodes entries blocks show ?thesis by blast
qed


theorem batches_are_disjoint_unions_witness:
  "demo_batch \<in> set (batches demo_loader_te) \<and>
   ((2, 3), 1) \<in> set (inp_a (fst demo_batch)) \<and>
   inp_i (fst demo_batch) ! 2 = inp_i (fst demo_batch) ! 3 \<and>
   (\<exists>gs. gs \<noteq> [] \<and> length gs \<le> batch_size \<and> demo_batch = collate gs \<and>
      snd demo_batch = map label gs \<and>
      length (inp_i (fst demo_batch)) = length (inp_x (fst demo_batch)))"
proof -
  have h1: "0 < batch_size" by (simp add: batch_size_def)
  have h2: "\<forall>k. set (rev [demo_graphs ! 3, demo_graphs ! 0]) \<subseteq> set [demo_graphs ! 3, demo_graphs ! 0]"
    by simp
  have h3: "list_all graph_ok [demo_graphs ! 3, demo_graphs ! 0]"
    by (simp add: graph_ok_def n_nodes_def demo_graphs_def)
  have h4: "demo_batch \<in> set (batches (disjoint_loader (\<lambda>k. rev) [demo_graphs ! 3, demo_graphs ! 0] batch_size 1))"
    by (simp add: disjoint_loader_def demo_batch_def batch_size_def)
  have e: "((2, 3), 1) \<in> set (inp_a (fst demo_batch))"
    by (simp add: demo_batch_def collate_def demo_graphs_def n_nodes_def)
  from batches_are_disjoint_unions [OF h1 h2 h3 h4] obtain gs where
    gs: "gs \<noteq> []" "length gs \<le> batch_size" "demo_batch = collate gs"
      "snd demo_batch = map label gs"
      "length (inp_i (fst demo_batch)) = length (inp_x (fst demo_batch))"
    and blocks: "\<forall>i j v. ((i, j), v) \<in> set (inp_a (fst demo_batch)) \<longrightarrow>
              i < length (inp_i (fst demo_batch)) \<and> j < length (inp_i (fst demo_batch)) \<and>
              inp_i (fst demo_batch) ! i = inp_i (fst demo_batch) ! j"
    by blast
  from blocks e have "inp_i (fst demo_batch) ! 2 = inp_i (fst demo_batch) ! 3" by blast
  with gs e h4 show ?thesis unfolding demo_loader_te_def by blast
qed

subsection \<open>The evaluation loop\<close>











end
